theory Spec2Isabelle
  imports Main "HOL-Library.Word"
begin

unbundle bit_operations_syntax

section \<open>Byte buffers\<close>

text \<open>
  A Node \<open>Buffer\<close> is a fixed-length array of bytes.  Reading an index outside the
  array gives \<open>undefined\<close> (here \<open>None\<close>); writing outside the array is ignored.
\<close>

type_synonym byte = "8 word"
type_synonym buffer = "byte list"

definition byteAt :: "buffer \<Rightarrow> nat \<Rightarrow> byte option" where
  "byteAt buffer i = (if i < length buffer then Some (buffer ! i) else None)"

definition setByte :: "buffer \<Rightarrow> nat \<Rightarrow> byte \<Rightarrow> buffer" where
  "setByte buffer i b = (if i < length buffer then buffer[i := b] else buffer)"

text \<open>The four comparisons \<open>buffer[i] === 0x1F && ... && buffer[i + 3] === 0x75\<close>.\<close>

definition isClusterAt :: "buffer \<Rightarrow> nat \<Rightarrow> bool" where
  "isClusterAt buffer i \<longleftrightarrow>
     byteAt buffer i = Some 0x1F \<and> byteAt buffer (i + 1) = Some 0x43 \<and>
     byteAt buffer (i + 2) = Some 0xB6 \<and> byteAt buffer (i + 3) = Some 0x75"

text \<open>The test \<open>length >= 4 && buffer[0] === 0x1A && ... && buffer[3] === 0xA3\<close>.\<close>

definition hasEbmlHeader :: "buffer \<Rightarrow> bool" where
  "hasEbmlHeader buffer \<longleftrightarrow>
     4 \<le> length buffer \<and> byteAt buffer 0 = Some 0x1A \<and> byteAt buffer 1 = Some 0x45 \<and>
     byteAt buffer 2 = Some 0xDF \<and> byteAt buffer 3 = Some 0xA3"

section \<open>extractWebmInitSegment\<close>

text \<open>
  The loop \<open>for (let i = 0; i < buffer.length - 4; i++)\<close>; the bound is computed on
  integers, since \<open>buffer.length - 4\<close> is negative for short buffers.
\<close>

function extractLoop :: "buffer \<Rightarrow> nat \<Rightarrow> buffer" where
  "extractLoop buffer i =
     (if int i < int (length buffer) - 4 then
        (if isClusterAt buffer i then take i buffer else extractLoop buffer (i + 1))
      else buffer)"
  by pat_completeness auto
termination
  by (relation "measure (\<lambda>(buffer, i). length buffer - i)") auto

declare extractLoop.simps [simp del]

definition extractWebmInitSegment :: "buffer \<Rightarrow> buffer" where
  "extractWebmInitSegment buffer = extractLoop buffer 0"

section \<open>readVint\<close>

text \<open>
  The result object \<open>{ value, length }\<close>.  The value is a JavaScript number; the
  bitwise operators work on its 32-bit two's complement image.
\<close>

record vint =
  vvalue :: int
  vlength :: nat

text \<open>\<open>(value << 8) | b\<close>: both operators convert to a signed 32-bit integer.\<close>

definition shl8or :: "int \<Rightarrow> int \<Rightarrow> int" where
  "shl8or v b = sint (push_bit 8 (word_of_int v :: 32 word) OR word_of_int b)"

text \<open>The loop \<open>while (length <= 8 && !(firstByte & mask)) { length++; mask >>= 1; }\<close>.\<close>

function vintScan :: "int \<Rightarrow> nat \<Rightarrow> int \<Rightarrow> nat \<times> int" where
  "vintScan firstByte len maskv =
     (if len \<le> 8 \<and> firstByte AND maskv = 0 then vintScan firstByte (len + 1) (drop_bit 1 maskv)
      else (len, maskv))"
  by pat_completeness auto
termination
  by (relation "measure (\<lambda>(firstByte, len, maskv). 9 - len)") auto

text \<open>
  The loop \<open>for (let i = 1; i < length; i++) value = (value << 8) | buffer[pos + i]\<close>;
  an \<open>undefined\<close> operand of \<open>|\<close> counts as 0.
\<close>

definition vintValue :: "buffer \<Rightarrow> nat \<Rightarrow> int \<Rightarrow> nat \<Rightarrow> int" where
  "vintValue buffer pos v0 len =
     fold (\<lambda>i v. shl8or v (case byteAt buffer (pos + i) of Some b \<Rightarrow> uint b | None \<Rightarrow> 0))
       [1..<len] v0"

definition readVint :: "buffer \<Rightarrow> nat \<Rightarrow> vint" where
  "readVint buffer pos =
     (if pos \<ge> length buffer then \<lparr>vvalue = 0, vlength = 0\<rparr>
      else
        let firstByte = uint (buffer ! pos);
            (len, maskv) = vintScan firstByte 1 0x80
        in if len > 8 \<or> pos + len > length buffer then \<lparr>vvalue = 0, vlength = 1\<rparr>
           else \<lparr>vvalue = vintValue buffer pos (firstByte AND (maskv - 1)) len, vlength = len\<rparr>)"

section \<open>writeUint\<close>

text \<open>
  A JavaScript number that holds a timecode: an integer, or \<open>NaN\<close> once an
  \<open>undefined\<close> array element has been added to it.  Numbers are IEEE doubles; every
  operation below is exact on integers of magnitude below \<open>2 ^ 53\<close>, which covers
  every timecode of at most 6 bytes.
\<close>

datatype jsnum = Num int | NaN

text \<open>\<open>value & 0xFF\<close> (\<open>NaN\<close> converts to 0) and \<open>Math.floor(value / 256)\<close>.\<close>

fun low8 :: "jsnum \<Rightarrow> byte" where
  "low8 (Num v) = word_of_int v"
| "low8 NaN = 0"

fun floor256 :: "jsnum \<Rightarrow> jsnum" where
  "floor256 (Num v) = Num (v div 256)"
| "floor256 NaN = NaN"

text \<open>
  The loop \<open>for (let i = size - 1; i >= 0; i--)\<close>: the counter of the model is
  \<open>i + 1\<close>, so that it stops at 0.
\<close>

fun writeUintLoop :: "buffer \<Rightarrow> nat \<Rightarrow> jsnum \<Rightarrow> nat \<Rightarrow> buffer" where
  "writeUintLoop buffer pos v 0 = buffer"
| "writeUintLoop buffer pos v (Suc i) =
     writeUintLoop (setByte buffer (pos + i) (low8 v)) pos (floor256 v) i"

definition writeUint :: "buffer \<Rightarrow> nat \<Rightarrow> jsnum \<Rightarrow> int \<Rightarrow> buffer" where
  "writeUint buffer pos v sz = writeUintLoop buffer pos v (nat sz)"

section \<open>adjustClusterTimestamps\<close>

text \<open>
  The loop \<open>for (let i = 0; i < timecodeSize.value; i++)
  timecode = (timecode * 256) + result[clusterPos + i]\<close>.
\<close>

definition readTimecode :: "buffer \<Rightarrow> nat \<Rightarrow> int \<Rightarrow> jsnum" where
  "readTimecode result clusterPos n =
     fold (\<lambda>i timecode.
              case (timecode, byteAt result (clusterPos + i)) of
                (Num t, Some b) \<Rightarrow> Num (t * 256 + uint b)
              | _ \<Rightarrow> NaN)
       [0..<nat n] (Num 0)"

text \<open>\<open>Math.max(0, timecode - firstTimestamp)\<close>.\<close>

fun newTimecodeOf :: "jsnum \<Rightarrow> jsnum \<Rightarrow> jsnum" where
  "newTimecodeOf (Num t) (Num f) = Num (max 0 (t - f))"
| "newTimecodeOf _ _ = NaN"

text \<open>One pass through the body of the \<open>while\<close> loop, at position \<open>pos\<close>.\<close>

definition adjustBody :: "buffer \<Rightarrow> jsnum option \<Rightarrow> nat \<Rightarrow> buffer \<times> jsnum option" where
  "adjustBody result firstTimestamp pos =
     (if isClusterAt result pos then
        let clusterPos = pos + 4;
            clusterSize = readVint result clusterPos;
            clusterPos = clusterPos + vlength clusterSize
        in if byteAt result clusterPos = Some 0xE7 then
             let clusterPos = clusterPos + 1;
                 timecodeSize = readVint result clusterPos;
                 clusterPos = clusterPos + vlength timecodeSize;
                 timecode = readTimecode result clusterPos (vvalue timecodeSize);
                 first = (case firstTimestamp of None \<Rightarrow> timecode | Some f \<Rightarrow> f);
                 newTimecode = newTimecodeOf timecode first
             in (writeUint result clusterPos newTimecode (vvalue timecodeSize), Some first)
           else (result, firstTimestamp)
      else (result, firstTimestamp))"

lemma length_setByte [simp]: "length (setByte buffer i b) = length buffer"
  by (simp add: setByte_def)

lemma length_writeUintLoop [simp]: "length (writeUintLoop buffer pos v n) = length buffer"
  by (induction n arbitrary: buffer v) simp_all

lemma length_writeUint [simp]: "length (writeUint buffer pos v sz) = length buffer"
  by (simp add: writeUint_def)

lemma length_adjustBody [simp]:
  "length (fst (adjustBody result firstTimestamp pos)) = length result"
  by (simp add: adjustBody_def Let_def)

lemma length_adjustBody_eq:
  "(result', firstTimestamp') = adjustBody result firstTimestamp pos \<Longrightarrow>
   length result' = length result"
  by (metis fst_conv length_adjustBody)

text \<open>The loop \<open>while (pos < result.length - 10) { ...; pos++; }\<close>.\<close>

function adjustLoop :: "buffer \<Rightarrow> jsnum option \<Rightarrow> nat \<Rightarrow> buffer \<times> jsnum option" where
  "adjustLoop result firstTimestamp pos =
     (if int pos < int (length result) - 10 then
        (case adjustBody result firstTimestamp pos of
           (result', firstTimestamp') \<Rightarrow> adjustLoop result' firstTimestamp' (pos + 1))
      else (result, firstTimestamp))"
  by pat_completeness auto
termination
proof (relation "measure (\<lambda>(result, firstTimestamp, pos). length result - pos)", goal_cases)
  case 1
  show ?case by simp
next
  case (2 result firstTimestamp pos result' firstTimestamp')
  then have "length result' = length result"
    by (metis length_adjustBody_eq)
  with 2 show ?case by simp
qed

declare adjustLoop.simps [simp del]

text \<open>\<open>firstTimestamp || 0\<close>: \<open>null\<close>, \<open>NaN\<close> and 0 all give 0.\<close>

fun offsetOf :: "jsnum option \<Rightarrow> int" where
  "offsetOf (Some (Num t)) = t"
| "offsetOf _ = 0"

text \<open>The result object \<open>{ buffer, offset }\<close>, as a pair.\<close>

definition adjustClusterTimestamps :: "buffer \<Rightarrow> buffer \<times> int" where
  "adjustClusterTimestamps buffer =
     (case adjustLoop buffer None 0 of (result, firstTimestamp) \<Rightarrow> (result, offsetOf firstTimestamp))"

section \<open>makePlayableWebm\<close>

text \<open>
  The global \<open>webmInitSegments\<close> is a \<open>Map\<close> from the string
  \<open>`${sessionId}_${direction}`\<close> to a buffer; the function reads and updates it, so
  the model takes it as an argument and returns it.  A buffer object is truthy, so
  \<open>!initSegment\<close> holds exactly when the key is absent.
\<close>

type_synonym cache = "string \<rightharpoonup> buffer"

definition initKey :: "string \<Rightarrow> string \<Rightarrow> string" where
  "initKey sessionId direction = sessionId @ ''_'' @ direction"

definition makePlayableWebm :: "cache \<Rightarrow> string \<Rightarrow> string \<Rightarrow> buffer \<Rightarrow> buffer \<times> cache" where
  "makePlayableWebm segs sessionId direction audioBuffer =
     (let key = initKey sessionId direction;
          initSegment = segs key
      in if hasEbmlHeader audioBuffer then
           (fst (adjustClusterTimestamps audioBuffer),
            (case initSegment of
               None \<Rightarrow> segs(key \<mapsto> extractWebmInitSegment audioBuffer)
             | Some seg \<Rightarrow> segs))
         else
           (case initSegment of
              Some seg \<Rightarrow> (fst (adjustClusterTimestamps (seg @ audioBuffer)), segs)
            | None \<Rightarrow> (audioBuffer, segs)))"

section \<open>Sessions, turns and the server state\<close>

datatype turnType = Input | Output

fun typeName :: "turnType \<Rightarrow> string" where
  "typeName Input = ''input''"
| "typeName Output = ''output''"

text \<open>The turn object \<open>{ id, type, startedAt, audioChunks, transcript }\<close>.\<close>

record turn =
  turn_id :: nat
  turn_type :: turnType
  startedAt :: string
  audioChunks :: "string list"
  transcript :: string

text \<open>
  The fields of an event and of an audio message that the server reads.  A field that is
  absent is the empty string: the server tests these fields for truthiness only
  (\<open>event.sessionId || ...\<close>, \<open>event.transcript\<close>, \<open>event.delta || ""\<close>,
  \<open>audio.data\<close>), and the empty string is falsy like \<open>undefined\<close>.
\<close>

record event =
  ev_type :: string
  ev_timestamp :: string
  ev_transcript :: string
  ev_delta :: string
  ev_sessionId :: string

record audio =
  au_direction :: string
  au_data :: string
  au_sessionId :: string

text \<open>
  The session object.  Its turn slots hold references to turn objects (\<open>null\<close> is
  \<open>None\<close>): a turn is shared between a slot and the timer armed for it, and is
  mutated through the slot.  The LangSmith run of the session is not modelled.
\<close>

record session =
  dir :: string
  turnCount :: nat
  currentInputTurn :: "nat option"
  currentOutputTurn :: "nat option"
  pendingInputTurn :: "nat option"
  pendingOutputTurn :: "nat option"
  events :: "event list"

text \<open>
  A callback armed with \<open>setTimeout\<close> and not yet run: its delay in milliseconds, the
  session object and the turn \<open>turnToSave\<close> its closure captured, and which of the two
  handlers armed it.
\<close>

record timer =
  tm_delay :: nat
  tm_session :: nat
  tm_turnToSave :: nat
  tm_type :: turnType

text \<open>
  What one call of \<open>saveTurn\<close> writes into the turn's directory: \<open>transcript.txt\<close>
  and \<open>audio.webm\<close> when they are written, and the fields of \<open>meta.json\<close>.
\<close>

record savedTurn =
  sv_dir :: string
  sv_id :: nat
  sv_type :: turnType
  sv_transcript :: "string option"
  sv_audio :: "buffer option"
  sv_startedAt :: string
  sv_audioChunks :: nat
  sv_transcriptLength :: nat

text \<open>
  The state of the server: the \<open>Map\<close> \<open>sessions\<close> in insertion order, from a
  session id to the address of its session object; the session and turn objects, an
  address being an index; the \<open>Map\<close> \<open>webmInitSegments\<close>; the armed timers; and
  the calls of \<open>saveTurn\<close> so far, oldest first.
\<close>

record server =
  sessions :: "(string \<times> nat) list"
  sessionObjs :: "session list"
  turnObjs :: "turn list"
  webmInitSegments :: cache
  timers :: "timer list"
  saved :: "savedTurn list"

subsection \<open>The Map of sessions\<close>

fun mapSet :: "(string \<times> 'a) list \<Rightarrow> string \<Rightarrow> 'a \<Rightarrow> (string \<times> 'a) list" where
  "mapSet [] k v = [(k, v)]"
| "mapSet ((k', v') # m) k v = (if k' = k then (k, v) # m else (k', v') # mapSet m k v)"

definition mapDelete :: "(string \<times> 'a) list \<Rightarrow> string \<Rightarrow> (string \<times> 'a) list" where
  "mapDelete m k = filter (\<lambda>(k', v). k' \<noteq> k) m"

text \<open>\<open>Array.from(sessions.keys()).pop()\<close>: the key inserted last, if any.\<close>

definition findSessionId :: "server \<Rightarrow> string option" where
  "findSessionId s = (if sessions s = [] then None else Some (fst (last (sessions s))))"

text \<open>\<open>x.sessionId || findSessionId()\<close>, then \<open>sessions.get(sessionId)\<close>.\<close>

definition resolveSessionId :: "server \<Rightarrow> string \<Rightarrow> string option" where
  "resolveSessionId s sid = (if sid \<noteq> [] then Some sid else findSessionId s)"

definition getSession :: "server \<Rightarrow> string option \<Rightarrow> nat option" where
  "getSession s sid = (case sid of None \<Rightarrow> None | Some k \<Rightarrow> map_of (sessions s) k)"

subsection \<open>Reading and writing objects\<close>

definition sessionAt :: "server \<Rightarrow> nat \<Rightarrow> session" where
  "sessionAt s a = sessionObjs s ! a"

definition turnAt :: "server \<Rightarrow> nat \<Rightarrow> turn" where
  "turnAt s r = turnObjs s ! r"

definition updSession :: "server \<Rightarrow> nat \<Rightarrow> (session \<Rightarrow> session) \<Rightarrow> server" where
  "updSession s a f = s\<lparr>sessionObjs := (sessionObjs s)[a := f (sessionObjs s ! a)]\<rparr>"

definition updTurn :: "server \<Rightarrow> nat \<Rightarrow> (turn \<Rightarrow> turn) \<Rightarrow> server" where
  "updTurn s r f = s\<lparr>turnObjs := (turnObjs s)[r := f (turnObjs s ! r)]\<rparr>"

text \<open>\<open>a || b\<close> on two slots.\<close>

fun orElse :: "'a option \<Rightarrow> 'a option \<Rightarrow> 'a option" where
  "orElse (Some x) _ = Some x"
| "orElse None y = y"

section \<open>saveTurn\<close>

text \<open>
  \<open>Buffer.from(chunk, "base64")\<close> belongs to the runtime, not to this program: the
  decoder is the parameter \<open>b64\<close> of every function that decodes a chunk.

  \<open>saveTurn\<close> looks the session id up by the identity of the session object; when the
  object is no longer in the \<open>Map\<close> the id is \<open>undefined\<close>, which the template
  string of \<open>makePlayableWebm\<close> prints as \<open>undefined\<close>.  The upload to LangSmith
  is not modelled.
\<close>

definition sessionIdOf :: "server \<Rightarrow> nat \<Rightarrow> string" where
  "sessionIdOf s a =
     (case find (\<lambda>(k, v). v = a) (sessions s) of Some (k, v) \<Rightarrow> k | None \<Rightarrow> ''undefined'')"

definition saveTurn :: "(string \<Rightarrow> buffer) \<Rightarrow> server \<Rightarrow> nat \<Rightarrow> nat \<Rightarrow> server" where
  "saveTurn b64 s a r =
     (let session = sessionAt s a;
          turn = turnAt s r;
          transcriptFile = (if transcript turn \<noteq> [] then Some (transcript turn) else None);
          (audioFile, segs) =
            (if length (audioChunks turn) > 0 then
               let rawBuffer = concat (map b64 (audioChunks turn));
                   sessionId = sessionIdOf s a;
                   (audioBuffer, segs) =
                     makePlayableWebm (webmInitSegments s) sessionId (typeName (turn_type turn))
                       rawBuffer
               in (Some audioBuffer, segs)
             else (None, webmInitSegments s))
      in s\<lparr>webmInitSegments := segs,
           saved := saved s @
             [\<lparr>sv_dir = dir session, sv_id = turn_id turn, sv_type = turn_type turn,
               sv_transcript = transcriptFile, sv_audio = audioFile,
               sv_startedAt = startedAt turn, sv_audioChunks = length (audioChunks turn),
               sv_transcriptLength = length (transcript turn)\<rparr>]\<rparr>)"

section \<open>The handlers of the observability endpoint\<close>

subsection \<open>session_start\<close>

definition handleSessionStart :: "server \<Rightarrow> string \<Rightarrow> server" where
  "handleSessionStart s sid =
     s\<lparr>sessionObjs := sessionObjs s @
          [\<lparr>dir = sid, turnCount = 0, currentInputTurn = None, currentOutputTurn = None,
            pendingInputTurn = None, pendingOutputTurn = None, events = []\<rparr>],
        sessions := mapSet (sessions s) sid (length (sessionObjs s))\<rparr>"

subsection \<open>event\<close>

text \<open>The block under \<open>event.type === "input_audio_buffer.speech_started"\<close>.\<close>

definition inputStarted :: "server \<Rightarrow> nat \<Rightarrow> event \<Rightarrow> server" where
  "inputStarted s a event =
     (let n = turnCount (sessionAt s a) + 1;
          r = length (turnObjs s);
          s = s\<lparr>turnObjs := turnObjs s @
                [\<lparr>turn_id = n, turn_type = Input, startedAt = ev_timestamp event,
                  audioChunks = [], transcript = []\<rparr>]\<rparr>
      in updSession s a (\<lambda>x. x\<lparr>turnCount := n, currentInputTurn := Some r\<rparr>))"

text \<open>
  The block under \<open>"input_audio_buffer.speech_stopped" && session.currentInputTurn\<close>;
  \<open>r\<close> is the turn in the current slot.
\<close>

definition inputStopped :: "server \<Rightarrow> nat \<Rightarrow> nat \<Rightarrow> server" where
  "inputStopped s a r =
     (let s = updSession s a (\<lambda>x. x\<lparr>pendingInputTurn := Some r, currentInputTurn := None\<rparr>)
      in s\<lparr>timers := timers s @
             [\<lparr>tm_delay = 1500, tm_session = a, tm_turnToSave = r, tm_type = Input\<rparr>]\<rparr>)"

text \<open>The block under \<open>"conversation.item.input_audio_transcription.completed"\<close>.\<close>

definition inputTranscript :: "server \<Rightarrow> nat \<Rightarrow> event \<Rightarrow> server" where
  "inputTranscript s a event =
     (case orElse (currentInputTurn (sessionAt s a)) (pendingInputTurn (sessionAt s a)) of
        Some r \<Rightarrow>
          if ev_transcript event \<noteq> [] then updTurn s r (\<lambda>t. t\<lparr>transcript := ev_transcript event\<rparr>)
          else s
      | None \<Rightarrow> s)"

text \<open>The block under \<open>event.type === "output_audio_buffer.started"\<close>.\<close>

definition outputStarted :: "server \<Rightarrow> nat \<Rightarrow> event \<Rightarrow> server" where
  "outputStarted s a event =
     (let n = turnCount (sessionAt s a) + 1;
          r = length (turnObjs s);
          s = s\<lparr>turnObjs := turnObjs s @
                [\<lparr>turn_id = n, turn_type = Output, startedAt = ev_timestamp event,
                  audioChunks = [], transcript = []\<rparr>]\<rparr>
      in updSession s a (\<lambda>x. x\<lparr>turnCount := n, currentOutputTurn := Some r\<rparr>))"

text \<open>The block under \<open>event.type === "response.output_audio_transcript.delta"\<close>.\<close>

definition outputDelta :: "server \<Rightarrow> nat \<Rightarrow> event \<Rightarrow> server" where
  "outputDelta s a event =
     (case orElse (currentOutputTurn (sessionAt s a)) (pendingOutputTurn (sessionAt s a)) of
        Some r \<Rightarrow> updTurn s r (\<lambda>t. t\<lparr>transcript := transcript t @ ev_delta event\<rparr>)
      | None \<Rightarrow> s)"

text \<open>The block under \<open>"output_audio_buffer.stopped" && session.currentOutputTurn\<close>.\<close>

definition outputStopped :: "server \<Rightarrow> nat \<Rightarrow> nat \<Rightarrow> server" where
  "outputStopped s a r =
     (let s = updSession s a (\<lambda>x. x\<lparr>pendingOutputTurn := Some r, currentOutputTurn := None\<rparr>)
      in s\<lparr>timers := timers s @
             [\<lparr>tm_delay = 500, tm_session = a, tm_turnToSave = r, tm_type = Output\<rparr>]\<rparr>)"

text \<open>\<open>session.events.push(event)\<close>.\<close>

definition pushEvent :: "server \<Rightarrow> nat \<Rightarrow> event \<Rightarrow> server" where
  "pushEvent s a event = updSession s a (\<lambda>x. x\<lparr>events := events x @ [event]\<rparr>)"

text \<open>
  The branch \<open>type === "event"\<close>: the event is pushed on the session's list, then the
  \<open>if\<close> statements run one after the other, each on the state the previous one left.
\<close>

definition handleEvent :: "server \<Rightarrow> event \<Rightarrow> server" where
  "handleEvent s event =
     (case getSession s (resolveSessionId s (ev_sessionId event)) of
        None \<Rightarrow> s
      | Some a \<Rightarrow>
          let s = pushEvent s a event;
              s = (if ev_type event = ''input_audio_buffer.speech_started''
                   then inputStarted s a event else s);
              s = (case currentInputTurn (sessionAt s a) of
                     Some r \<Rightarrow>
                       if ev_type event = ''input_audio_buffer.speech_stopped''
                       then inputStopped s a r else s
                   | None \<Rightarrow> s);
              s = (if ev_type event = ''conversation.item.input_audio_transcription.completed''
                   then inputTranscript s a event else s);
              s = (if ev_type event = ''output_audio_buffer.started''
                   then outputStarted s a event else s);
              s = (if ev_type event = ''response.output_audio_transcript.delta''
                   then outputDelta s a event else s);
              s = (case currentOutputTurn (sessionAt s a) of
                     Some r \<Rightarrow>
                       if ev_type event = ''output_audio_buffer.stopped''
                       then outputStopped s a r else s
                   | None \<Rightarrow> s)
          in s)"

subsection \<open>The timer callbacks\<close>

text \<open>
  The callback of the \<open>k\<close>-th armed timer runs: it clears the pending slot of its
  direction if the slot still holds the captured turn, then saves the captured turn.
\<close>

definition fireTimer :: "(string \<Rightarrow> buffer) \<Rightarrow> server \<Rightarrow> nat \<Rightarrow> server" where
  "fireTimer b64 s k =
     (if k < length (timers s) then
        let t = timers s ! k;
            s = s\<lparr>timers := take k (timers s) @ drop (Suc k) (timers s)\<rparr>;
            s = (case tm_type t of
                   Input \<Rightarrow>
                     if pendingInputTurn (sessionAt s (tm_session t)) = Some (tm_turnToSave t)
                     then updSession s (tm_session t) (\<lambda>x. x\<lparr>pendingInputTurn := None\<rparr>) else s
                 | Output \<Rightarrow>
                     if pendingOutputTurn (sessionAt s (tm_session t)) = Some (tm_turnToSave t)
                     then updSession s (tm_session t) (\<lambda>x. x\<lparr>pendingOutputTurn := None\<rparr>) else s)
        in saveTurn b64 s (tm_session t) (tm_turnToSave t)
      else s)"

subsection \<open>audio\<close>

definition handleAudio :: "(string \<Rightarrow> buffer) \<Rightarrow> server \<Rightarrow> audio \<Rightarrow> server" where
  "handleAudio b64 s audio =
     (case resolveSessionId s (au_sessionId audio) of
        None \<Rightarrow> s
      | Some sessionId \<Rightarrow>
          (case getSession s (Some sessionId) of
             None \<Rightarrow> s
           | Some a \<Rightarrow>
               if au_data audio \<noteq> [] then
                 let key = initKey sessionId (au_direction audio);
                     s = (if webmInitSegments s key = None then
                            let chunkBuffer = b64 (au_data audio)
                            in if hasEbmlHeader chunkBuffer
                               then s\<lparr>webmInitSegments :=
                                        (webmInitSegments s)(key \<mapsto> extractWebmInitSegment chunkBuffer)\<rparr>
                               else s
                          else s);
                     turn = (if au_direction audio = ''input''
                             then orElse (currentInputTurn (sessionAt s a)) (pendingInputTurn (sessionAt s a))
                             else orElse (currentOutputTurn (sessionAt s a)) (pendingOutputTurn (sessionAt s a)))
                 in (case turn of
                       Some r \<Rightarrow> updTurn s r (\<lambda>t. t\<lparr>audioChunks := audioChunks t @ [au_data audio]\<rparr>)
                     | None \<Rightarrow> s)
               else s))"

subsection \<open>session_end\<close>

text \<open>\<open>if (slot) await saveTurn(session, slot)\<close>.\<close>

definition saveSlot :: "(string \<Rightarrow> buffer) \<Rightarrow> server \<Rightarrow> nat \<Rightarrow> nat option \<Rightarrow> server" where
  "saveSlot b64 s a slot = (case slot of Some r \<Rightarrow> saveTurn b64 s a r | None \<Rightarrow> s)"

definition handleSessionEnd :: "(string \<Rightarrow> buffer) \<Rightarrow> server \<Rightarrow> string \<Rightarrow> server" where
  "handleSessionEnd b64 s summaryId =
     (case resolveSessionId s summaryId of
        None \<Rightarrow> s
      | Some sessionId \<Rightarrow>
          (case getSession s (Some sessionId) of
             None \<Rightarrow> s
           | Some a \<Rightarrow>
               let s = saveSlot b64 s a (currentInputTurn (sessionAt s a));
                   s = saveSlot b64 s a (pendingInputTurn (sessionAt s a));
                   s = saveSlot b64 s a (currentOutputTurn (sessionAt s a));
                   s = saveSlot b64 s a (pendingOutputTurn (sessionAt s a));
                   s = s\<lparr>webmInitSegments := (webmInitSegments s)(sessionId @ ''_input'' := None)\<rparr>;
                   s = s\<lparr>webmInitSegments := (webmInitSegments s)(sessionId @ ''_output'' := None)\<rparr>;
                   s = s\<lparr>sessions := mapDelete (sessions s) sessionId\<rparr>
               in s))"

text \<open>The request body, by its \<open>type\<close>; any other type changes nothing.\<close>

datatype message =
  SessionStart string
| Event event
| Audio audio
| SessionEnd string
| OtherMessage

fun handle :: "(string \<Rightarrow> buffer) \<Rightarrow> server \<Rightarrow> message \<Rightarrow> server" where
  "handle b64 s (SessionStart sid) = handleSessionStart s sid"
| "handle b64 s (Event event) = handleEvent s event"
| "handle b64 s (Audio audio) = handleAudio b64 s audio"
| "handle b64 s (SessionEnd summaryId) = handleSessionEnd b64 s summaryId"
| "handle b64 s OtherMessage = s"

definition initialServer :: server where
  "initialServer =
     \<lparr>sessions = [], sessionObjs = [], turnObjs = [], webmInitSegments = Map.empty,
      timers = [], saved = []\<rparr>"

section \<open>Notions of the specification\<close>

text \<open>
  The width of a variable-length integer, as the specification words it: the number of
  leading zero bits of the first byte, plus one for the marker bit.  A first byte without
  a marker bit has 8 leading zeros.
\<close>

definition leadingZeros :: "byte \<Rightarrow> nat" where
  "leadingZeros b = length (takeWhile (\<lambda>i. \<not> bit b i) [7, 6, 5, 4, 3, 2, 1, 0])"

definition vintWidth :: "byte \<Rightarrow> nat" where
  "vintWidth b = leadingZeros b + 1"

text \<open>
  The big-endian magnitude formed from the bits of the first byte after the marker bit
  and the \<open>width - 1\<close> bytes that follow.
\<close>

definition vintMagnitude :: "buffer \<Rightarrow> nat \<Rightarrow> nat \<Rightarrow> int" where
  "vintMagnitude buffer pos width =
     foldl (\<lambda>acc x. acc * 256 + uint x) (uint (buffer ! pos) mod 2 ^ (8 - width))
       (take (width - 1) (drop (pos + 1) buffer))"

text \<open>
  The initialization segment, as the specification words it: every byte before the
  first occurrence of the cluster marker, and the whole input when the marker does not
  occur.
\<close>

definition firstClusterMarker :: "buffer \<Rightarrow> nat option" where
  "firstClusterMarker buffer = find (isClusterAt buffer) [0..<length buffer]"

definition initializationSegmentSpec :: "buffer \<Rightarrow> buffer" where
  "initializationSegmentSpec buffer =
     (case firstClusterMarker buffer of Some i \<Rightarrow> take i buffer | None \<Rightarrow> buffer)"

(*SPECDEFS*)

section \<open>readVint: width and value\<close>

lemma bit_small: "0 \<le> (b::int) \<Longrightarrow> b < 2 ^ m \<Longrightarrow> m \<le> n \<Longrightarrow> \<not> bit b n"
  by (metis bit_take_bit_iff not_le take_bit_int_eq_self)

lemma shl8or_word':
  assumes "0 \<le> b" "b < 256"
  shows "(word_of_int (shl8or v b) :: 32 word) = word_of_int (v * 256 + b)"
proof -
  have nb: "\<not> bit b n" if "8 \<le> n" for n
    using bit_small [of b 8 n] assms that by simp
  have "push_bit 8 (word_of_int v :: 32 word) + word_of_int b = push_bit 8 (word_of_int v) OR word_of_int b"
    by (rule disjunctive_add_eq_or, rule bit_eqI) (auto simp add: bit_simps nb)
  then show ?thesis
    by (simp add: shl8or_def push_bit_eq_mult)
qed

lemma shl8or_word:
  "(word_of_int (shl8or v (uint (x::byte))) :: 32 word) = word_of_int (v * 256 + uint x)"
  using shl8or_word' [of "uint x" v] uint_lt2p [of x] by simp

lemma uint_and_pow: "(uint (b::byte) AND 2 ^ n = 0) = (\<not> bit b n)"
  using and_exp_eq_0_iff_not_bit [of "uint b" n] by (auto simp add: bit_uint_iff dest: bit_imp_le_length)

lemma masks:
  "(uint (b::byte) AND 128 = 0) = (\<not> bit b 7)"
  "(uint (b::byte) AND 64 = 0) = (\<not> bit b 6)"
  "(uint (b::byte) AND 32 = 0) = (\<not> bit b 5)"
  "(uint (b::byte) AND 16 = 0) = (\<not> bit b 4)"
  "(uint (b::byte) AND 8 = 0) = (\<not> bit b 3)"
  "(uint (b::byte) AND 4 = 0) = (\<not> bit b 2)"
  "(uint (b::byte) AND 2 = 0) = (\<not> bit b 1)"
  "(uint (b::byte) AND 1 = 0) = (\<not> bit b 0)"
  using uint_and_pow [of b 7] uint_and_pow [of b 6] uint_and_pow [of b 5] uint_and_pow [of b 4]
    uint_and_pow [of b 3] uint_and_pow [of b 2] uint_and_pow [of b 1] uint_and_pow [of b 0]
  by simp_all

lemma vintScan_leadingZeros:
  "vintScan (uint (b::byte)) 1 0x80 = (vintWidth b, drop_bit (leadingZeros b) 0x80)"
  by (simp add: leadingZeros_def vintWidth_def masks drop_bit_eq_div)

lemma readVint_alt:
  "readVint buffer pos =
     (if pos \<ge> length buffer then \<lparr>vvalue = 0, vlength = 0\<rparr>
      else if vintWidth (buffer ! pos) > 8 \<or> pos + vintWidth (buffer ! pos) > length buffer
        then \<lparr>vvalue = 0, vlength = 1\<rparr>
      else \<lparr>vvalue = vintValue buffer pos
                (uint (buffer ! pos) AND (drop_bit (leadingZeros (buffer ! pos)) 0x80 - 1))
                (vintWidth (buffer ! pos)),
             vlength = vintWidth (buffer ! pos)\<rparr>)"
  unfolding readVint_def Let_def vintScan_leadingZeros by simp

declare vintScan.simps [simp del]


lemma leadingZeros_le: "leadingZeros b \<le> 8"
  unfolding leadingZeros_def by (rule order_trans [OF length_takeWhile_le]) simp


lemma leadingZeros_8: "leadingZeros b = 8 \<longleftrightarrow> b = 0"
proof
  assume "leadingZeros b = 8"
  then have "length (takeWhile (\<lambda>i. \<not> bit b i) [7, 6, 5, 4, 3, 2, 1, 0::nat])
      = length [7, 6, 5, 4, 3, 2, 1, 0::nat]"
    by (simp add: leadingZeros_def)
  then have "takeWhile (\<lambda>i. \<not> bit b i) [7, 6, 5, 4, 3, 2, 1, 0::nat] = [7, 6, 5, 4, 3, 2, 1, 0::nat]"
    by (metis takeWhile_eq_take take_all order_refl)
  then have all: "\<forall>i \<in> set [7, 6, 5, 4, 3, 2, 1, 0::nat]. \<not> bit b i"
    by (simp only: takeWhile_eq_all_conv)
  have "\<not> bit b n" for n
  proof (cases "n < 8")
    case True
    have "[7, 6, 5, 4, 3, 2, 1, 0::nat] = rev [0..<8]"
      by (simp add: upt_conv_Cons)
    with True have "n \<in> set [7, 6, 5, 4, 3, 2, 1, 0::nat]"
      by (simp only: set_rev set_upt) simp
    with all show ?thesis by blast
  next
    case False
    then show ?thesis using bit_imp_le_length [of b n] by auto
  qed
  then show "b = 0"
    by (simp add: bit_eq_iff)
next
  assume "b = 0" then show "leadingZeros b = 8" by (simp add: leadingZeros_def)
qed

lemma mask_minus: "n \<le> 7 \<Longrightarrow> (x::int) AND (drop_bit n 0x80 - 1) = x mod 2 ^ (7 - n)"
proof -
  assume n: "n \<le> 7"
  have "drop_bit n (0x80 :: int) = 2 ^ (7 - n)"
    using n drop_bit_exp_eq [of n 7, where ?'a = int] by simp
  then have "drop_bit n (0x80::int) - 1 = mask (7 - n)"
    by (simp add: mask_eq_exp_minus_1)
  then show ?thesis
    by (simp add: take_bit_eq_mod flip: take_bit_eq_mask)
qed

lemma fold_vint:
  assumes "pos + len < length buffer"
  shows "(word_of_int (vintValue buffer pos v0 (Suc len)) :: 32 word) =
         word_of_int (foldl (\<lambda>acc x. acc * 256 + uint x) v0 (take len (drop (pos + 1) buffer)))"
  using assms
proof (induction len)
  case 0
  then show ?case by (simp add: vintValue_def)
next
  case (Suc len)
  then have lt: "len < length (drop (pos + 1) buffer)" and ih: "(word_of_int (vintValue buffer pos v0 (Suc len)) :: 32 word) =
         word_of_int (foldl (\<lambda>acc x. acc * 256 + uint x) v0 (take len (drop (pos + 1) buffer)))"
    by simp_all
  have "vintValue buffer pos v0 (Suc (Suc len)) = shl8or (vintValue buffer pos v0 (Suc len)) (uint (buffer ! (pos + Suc len)))"
    using Suc.prems by (simp add: vintValue_def byteAt_def)
  then have "(word_of_int (vintValue buffer pos v0 (Suc (Suc len))) :: 32 word)
      = word_of_int (vintValue buffer pos v0 (Suc len) * 256 + uint (buffer ! (pos + Suc len)))"
    by (simp only: shl8or_word)
  also have "\<dots> = word_of_int (vintValue buffer pos v0 (Suc len)) * 256 + word_of_int (uint (buffer ! (pos + Suc len)))"
    by simp
  finally show ?case
    using ih lt by (simp add: take_Suc_conv_app_nth)
qed

lemma vintValue_range:
  assumes "0 \<le> v0" "v0 < 128"
  shows "sint (word_of_int (vintValue buffer pos v0 len) :: 32 word) = vintValue buffer pos v0 len"
proof (cases "len \<le> 1")
  case True
  then have "vintValue buffer pos v0 len = v0" by (simp add: vintValue_def)
  with assms show ?thesis by (simp add: sint_sbintrunc' signed_take_bit_int_eq_self)
next
  case False
  then obtain k where "len = Suc (Suc k)" by (metis Suc_leI not_less_eq_eq le_Suc_ex One_nat_def add_Suc plus_1_eq_Suc)
  then have "\<exists>w::32 word. vintValue buffer pos v0 len = sint w"
    by (auto simp add: vintValue_def shl8or_def)
  then show ?thesis by auto
qed
lemma readVint_cases:
  "readVint buffer pos =
     (if pos \<ge> length buffer then \<lparr>vvalue = 0, vlength = 0\<rparr>
      else if buffer ! pos = 0 \<or> pos + vintWidth (buffer ! pos) > length buffer
           then \<lparr>vvalue = 0, vlength = 1\<rparr>
      else \<lparr>vvalue = sint (word_of_int (vintMagnitude buffer pos (vintWidth (buffer ! pos))) :: 32 word),
            vlength = vintWidth (buffer ! pos)\<rparr>)"
proof -
  let ?b = "buffer ! pos"
  let ?w = "vintWidth ?b"
  show ?thesis
  proof (cases "pos \<ge> length buffer")
    case True then show ?thesis by (simp add: readVint_def)
  next
    case inrange: False
    show ?thesis
    proof (cases "?b = 0 \<or> pos + ?w > length buffer")
      case True
      then show ?thesis using inrange leadingZeros_8 [of ?b] leadingZeros_le [of ?b]
        by (auto simp add: readVint_alt vintWidth_def)
    next
      case False
      then have w: "?w \<le> 8" "pos + ?w \<le> length buffer" "leadingZeros ?b \<le> 7"
        using leadingZeros_8 [of ?b] leadingZeros_le [of ?b] by (auto simp: vintWidth_def)
      have v0: "uint ?b AND (drop_bit (leadingZeros ?b) 0x80 - 1) = uint ?b mod 2 ^ (8 - ?w)"
        using mask_minus [OF w(3)] by (simp add: vintWidth_def)
      have "uint ?b mod 2 ^ (8 - ?w) < 2 ^ (8 - ?w)"
        by simp
      also have "\<dots> \<le> (2::int) ^ 7"
        by (rule power_increasing) (simp_all add: vintWidth_def)
      finally have rng: "0 \<le> uint ?b mod 2 ^ (8 - ?w)" "uint ?b mod 2 ^ (8 - ?w) < 128"
        by simp_all
      have "(word_of_int (vintValue buffer pos (uint ?b mod 2 ^ (8 - ?w)) ?w) :: 32 word)
          = word_of_int (vintMagnitude buffer pos ?w)"
        using fold_vint [of pos "leadingZeros ?b" buffer] w by (simp add: vintWidth_def vintMagnitude_def)
      then have "vintValue buffer pos (uint ?b mod 2 ^ (8 - ?w)) ?w
          = sint (word_of_int (vintMagnitude buffer pos ?w) :: 32 word)"
        using vintValue_range [OF rng] by metis
      then show ?thesis
        using inrange False w by (simp add: readVint_alt v0)
    qed
  qed
qed

text \<open>
  Claim C9, as amended.  \<open>readVint\<close> returns width 0 when the position is at or past
  the end of the buffer.  It returns width 1 and value 0 when the first byte has no marker
  bit, and also when the width that the first byte encodes runs past the end of the buffer.
  Otherwise the width it returns is the number of leading zero bits of the first byte plus
  one, between 1 and 8, and the value is the big-endian magnitude of the remaining bits of
  the first byte and the following bytes whenever that magnitude is below \<open>2 ^ 31\<close>.
  The function is total: no case raises.
\<close>

theorem readVint_width_and_value:
  "(length buffer \<le> pos \<longrightarrow> readVint buffer pos = \<lparr>vvalue = 0, vlength = 0\<rparr>) \<and>
   (pos < length buffer \<and> buffer ! pos = 0 \<longrightarrow> readVint buffer pos = \<lparr>vvalue = 0, vlength = 1\<rparr>) \<and>
   (pos < length buffer \<and> length buffer < pos + vintWidth (buffer ! pos) \<longrightarrow>
      readVint buffer pos = \<lparr>vvalue = 0, vlength = 1\<rparr>) \<and>
   (pos < length buffer \<and> buffer ! pos \<noteq> 0 \<and> pos + vintWidth (buffer ! pos) \<le> length buffer \<longrightarrow>
      vlength (readVint buffer pos) = vintWidth (buffer ! pos) \<and>
      1 \<le> vintWidth (buffer ! pos) \<and> vintWidth (buffer ! pos) \<le> 8 \<and>
      (vintMagnitude buffer pos (vintWidth (buffer ! pos)) < 2 ^ 31 \<longrightarrow>
         vvalue (readVint buffer pos) = vintMagnitude buffer pos (vintWidth (buffer ! pos))))"
proof -
  have mag: "0 \<le> vintMagnitude buffer pos w" for w
  proof -
    have "0 \<le> a \<Longrightarrow> 0 \<le> foldl (\<lambda>acc x. acc * 256 + uint (x::byte)) a xs" for a xs
      by (induction xs arbitrary: a) simp_all
    then show ?thesis by (simp add: vintMagnitude_def)
  qed
  have sm: "sint (word_of_int m :: 32 word) = m" if "0 \<le> m" "m < 2 ^ 31" for m
    using that by (simp add: sint_sbintrunc' signed_take_bit_int_eq_self)
  have w8: "buffer ! pos \<noteq> 0 \<Longrightarrow> vintWidth (buffer ! pos) \<le> 8"
    using leadingZeros_8 [of "buffer ! pos"] leadingZeros_le [of "buffer ! pos"]
    by (simp add: vintWidth_def)
  show ?thesis
    using mag sm w8 by (auto simp add: readVint_cases vintWidth_def)
qed

theorem readVint_width_and_value_witness:
  "readVint [0x81] 1 = \<lparr>vvalue = 0, vlength = 0\<rparr> \<and>
   readVint [0x00, 0x81] 0 = \<lparr>vvalue = 0, vlength = 1\<rparr> \<and>
   readVint [0x40] 0 = \<lparr>vvalue = 0, vlength = 1\<rparr> \<and>
   readVint [0x41, 0x02] 0 = \<lparr>vvalue = 258, vlength = 2\<rparr>"
proof -
  have l: "leadingZeros 0x41 = 1" "leadingZeros 0x40 = 1"
    by (simp_all add: leadingZeros_def)
  show ?thesis
    using readVint_width_and_value [of "[0x81]" 1] readVint_width_and_value [of "[0x00, 0x81]" 0]
      readVint_width_and_value [of "[0x40]" 0] readVint_width_and_value [of "[0x41, 0x02]" 0]
    by (simp add: vintWidth_def l vintMagnitude_def)
qed

text \<open>
  Claim C9 as stated fails on a truncated integer: the first byte \<open>0x40\<close> has a marker
  bit and encodes width 2, but the buffer ends after it and the width returned is 1.
\<close>

theorem readVint_truncated_counterexample:
  "0 < length [0x40 :: byte] \<and> [0x40 :: byte] ! 0 \<noteq> 0 \<and>
   vlength (readVint [0x40] 0) \<noteq> vintWidth ([0x40] ! 0)"
  by (simp add: readVint_def vintWidth_def leadingZeros_def vintScan.simps)

text \<open>
  On top of that, the shifts of \<open>readVint\<close> work on 32 bits: from width 5 on, a
  magnitude of \<open>2 ^ 31\<close> or more comes back wrapped.
\<close>

lemma readVint_width5_wraps:
  "vvalue (readVint [0x08, 0x80, 0, 0, 0] 0) = - 2147483648 \<and>
   vintMagnitude [0x08, 0x80, 0, 0, 0] 0 (vintWidth 0x08) = 2147483648"
  by (simp add: readVint_def vintWidth_def leadingZeros_def vintScan.simps vintValue_def
      shl8or_def byteAt_def vintMagnitude_def)

section \<open>extractWebmInitSegment and the cluster marker\<close>

text \<open>
  Claim C6 at a buffer whose last four bytes are the cluster marker: the loop stops one
  position short of the marker, so the whole buffer comes back, where the bytes before the
  first occurrence of the marker are the first four.
\<close>

theorem extractWebmInitSegment_marker_at_end:
  "extractWebmInitSegment [0x1A, 0x45, 0xDF, 0xA3, 0x1F, 0x43, 0xB6, 0x75]
     = [0x1A, 0x45, 0xDF, 0xA3, 0x1F, 0x43, 0xB6, 0x75] \<and>
   initializationSegmentSpec [0x1A, 0x45, 0xDF, 0xA3, 0x1F, 0x43, 0xB6, 0x75]
     = [0x1A, 0x45, 0xDF, 0xA3]"
  by (simp add: extractWebmInitSegment_def extractLoop.simps initializationSegmentSpec_def firstClusterMarker_def
      isClusterAt_def byteAt_def upt_conv_Cons)

section \<open>makePlayableWebm\<close>

text \<open>
  Claim C7.  When the raw bytes do not begin with the EBML signature and the cache holds
  no initialization segment for the session and direction, \<open>makePlayableWebm\<close> returns
  the raw bytes as they are and leaves the cache as it is.  No branch of the function
  raises.
\<close>

theorem makePlayableWebm_fallback:
  assumes "\<not> hasEbmlHeader rawBytes" and "segs (initKey sessionId direction) = None"
  shows "makePlayableWebm segs sessionId direction rawBytes = (rawBytes, segs)"
  using assms by (simp add: makePlayableWebm_def)

theorem makePlayableWebm_fallback_witness:
  "\<not> hasEbmlHeader [0x1F, 0x43, 0xB6, 0x75, 0x81] \<and>
   (Map.empty :: cache) (initKey ''S'' ''input'') = None \<and>
   makePlayableWebm Map.empty ''S'' ''input'' [0x1F, 0x43, 0xB6, 0x75, 0x81]
     = ([0x1F, 0x43, 0xB6, 0x75, 0x81], Map.empty)"
  using makePlayableWebm_fallback [of "[0x1F, 0x43, 0xB6, 0x75, 0x81]" Map.empty "''S''" "''input''"]
  by (simp add: hasEbmlHeader_def byteAt_def)

section \<open>The header survives the rebase\<close>

text \<open>
  Every write of \<open>adjustClusterTimestamps\<close> lands at least five bytes after the
  position of a cluster marker, so the first bytes of the buffer are never touched.
\<close>

lemma take_setByte: "n \<le> i \<Longrightarrow> take n (setByte buffer i b) = take n buffer"
  by (simp add: setByte_def)

lemma take_writeUintLoop:
  "n \<le> pos \<Longrightarrow> take n (writeUintLoop buffer pos v k) = take n buffer"
  by (induction k arbitrary: buffer v) (simp_all add: take_setByte)

lemma take_writeUint: "n \<le> pos \<Longrightarrow> take n (writeUint buffer pos v sz) = take n buffer"
  by (simp add: writeUint_def take_writeUintLoop)

lemma take_adjustBody:
  "n \<le> pos + 5 \<Longrightarrow> take n (fst (adjustBody result firstTimestamp pos)) = take n result"
  by (simp add: adjustBody_def Let_def take_writeUint)

lemma take_adjustLoop:
  "n \<le> pos + 5 \<Longrightarrow> take n (fst (adjustLoop result firstTimestamp pos)) = take n result"
proof (induction result firstTimestamp pos rule: adjustLoop.induct)
  case (1 result firstTimestamp pos)
  show ?case
  proof (cases "int pos < int (length result) - 10")
    case True
    obtain result' firstTimestamp' where b: "adjustBody result firstTimestamp pos = (result', firstTimestamp')"
      by (cases "adjustBody result firstTimestamp pos")
    then have "take n result' = take n result"
      using take_adjustBody [OF "1.prems", of result firstTimestamp] by simp
    moreover have "take n (fst (adjustLoop result' firstTimestamp' (pos + 1))) = take n result'"
      using "1.IH" [OF True b [symmetric]] "1.prems" by simp
    ultimately show ?thesis
      using True b by (subst adjustLoop.simps) simp
  next
    case False
    then show ?thesis by (subst adjustLoop.simps) simp
  qed
qed

lemma hasEbmlHeader_take:
  "hasEbmlHeader buffer \<longleftrightarrow> take 4 buffer = [0x1A, 0x45, 0xDF, 0xA3]"
proof (cases "4 \<le> length buffer")
  case True
  then have "Suc (Suc (Suc (Suc 0))) \<le> length buffer"
    by simp
  then obtain a b c d rest where "buffer = a # b # c # d # rest"
    by (auto simp add: Suc_le_length_iff)
  then show ?thesis
    by (auto simp add: hasEbmlHeader_def byteAt_def)
next
  case False
  then have "length (take 4 buffer) < 4" by simp
  then have "take 4 buffer \<noteq> [0x1A, 0x45, 0xDF, 0xA3]" by auto
  with False show ?thesis by (simp add: hasEbmlHeader_def)
qed

text \<open>
  Claim C8.  A buffer that begins with the EBML signature goes through the first branch
  of \<open>makePlayableWebm\<close>; what comes back begins with the signature too.
\<close>

theorem makePlayableWebm_keeps_header:
  assumes "hasEbmlHeader rawBytes"
  shows "hasEbmlHeader (fst (makePlayableWebm segs sessionId direction rawBytes))"
proof -
  have "take 4 (fst (adjustClusterTimestamps rawBytes)) = take 4 rawBytes"
    using take_adjustLoop [of 4 0 rawBytes None]
    by (cases "adjustLoop rawBytes None 0") (simp add: adjustClusterTimestamps_def)
  with assms show ?thesis
    by (simp add: makePlayableWebm_def hasEbmlHeader_take Let_def)
qed

theorem makePlayableWebm_keeps_header_witness:
  "hasEbmlHeader [0x1A, 0x45, 0xDF, 0xA3, 0x1F, 0x43, 0xB6, 0x75, 0x81, 0xE7, 0x81, 0x05, 0, 0, 0] \<and>
   hasEbmlHeader (fst (makePlayableWebm Map.empty ''S'' ''input''
     [0x1A, 0x45, 0xDF, 0xA3, 0x1F, 0x43, 0xB6, 0x75, 0x81, 0xE7, 0x81, 0x05, 0, 0, 0]))"
proof -
  have h: "hasEbmlHeader
      [0x1A, 0x45, 0xDF, 0xA3, 0x1F, 0x43, 0xB6, 0x75, 0x81, 0xE7, 0x81, 0x05, 0, 0, 0]"
    by (simp add: hasEbmlHeader_def byteAt_def)
  show ?thesis
    using h makePlayableWebm_keeps_header [OF h, of Map.empty "''S''" "''input''"]
    by (rule conjI)
qed

(*THEOREMS*)

end
